theory Spec2Isabelle
  imports Main "HOL-Library.Sublist"
begin

chapter \<open>The model\<close>

section \<open>Python values and exceptions\<close>

text \<open>
  The exceptions of the modelled code are values.  \<open>JSONDecodeError\<close> and
  \<open>UnicodeDecodeError\<close> are subclasses of \<open>ValueError\<close> in Python, neither of the other;
  \<open>is_ValueError\<close> is the test an \<open>except ValueError\<close> clause makes.
\<close>

datatype py_error =
    IndexError
  | KeyError
  | TypeError
  | ValueError
  | JSONDecodeError
  | UnicodeDecodeError
  | RecursionError
  | AttributeError
  | OverflowError
  | QueueEmpty
  | ConnectionClosed
  | ConnectionError
  | OtherError

fun is_ValueError :: "py_error \<Rightarrow> bool" where
  "is_ValueError ValueError = True"
| "is_ValueError JSONDecodeError = True"
| "is_ValueError UnicodeDecodeError = True"
| "is_ValueError _ = False"

section \<open>Option symbol transform (schwab/utils.py, parse_option_string)\<close>

text \<open>
  A Python \<open>str\<close> is modelled as a \<open>string\<close>; a \<open>char\<close> stands for the code point of the
  same number (below 256).  \<open>str.isdigit\<close> is true there for the ASCII digits and for the
  superscript digits U+00B2, U+00B3 and U+00B9.
\<close>

definition isdigit :: "char \<Rightarrow> bool" where
  "isdigit c =
     (let n = (of_char c :: nat)
      in (48 \<le> n \<and> n \<le> 57) \<or> n = 178 \<or> n = 179 \<or> n = 185)"

text \<open>\<open>s.ljust(w, c)\<close>: pads on the right up to width \<open>w\<close>, never truncates.\<close>

definition ljust :: "nat \<Rightarrow> char \<Rightarrow> string \<Rightarrow> string" where
  "ljust w c s = s @ replicate (w - length s) c"

text \<open>
  The loop \<^verbatim>\<open>while i < len(input) and not input[i].isdigit(): i += 1\<close>,
  returning the final \<open>i\<close>.
\<close>

function first_digit_index :: "string \<Rightarrow> nat \<Rightarrow> nat" where
  "first_digit_index input i =
     (if i < length input \<and> \<not> isdigit (input ! i)
      then first_digit_index input (i + 1) else i)"
  by pat_completeness auto
termination
  by (relation "measure (\<lambda>(input, i). length input - i)") auto

declare first_digit_index.simps [simp del]

text \<open>
  \<open>input[i + 6]\<close> raises \<open>IndexError\<close> when the string is too short; the slices never
  raise.
\<close>

definition parse_option_string :: "string \<Rightarrow> py_error + string" where
  "parse_option_string input =
     (let i = first_digit_index input 0;
          symbol_root = ljust 6 CHR '' '' (take i input);
          date_str = take 6 (drop i input)
      in if i + 6 < length input
         then (let option_type = input ! (i + 6);
                   strike_price = ljust 8 CHR ''0'' (drop (i + 7) input)
               in Inr (symbol_root @ date_str @ [option_type] @ strike_price))
         else Inl IndexError)"

section \<open>Time\<close>

text \<open>
  An aware UTC \<open>datetime\<close> is the number of microseconds since the epoch (the resolution of
  Python's datetime).  Python's datetimes end with year 9999 and begin with year 1; an
  addition that leaves the range raises \<open>OverflowError\<close>.
\<close>

type_synonym datetime = int

definition DATETIME_MAX :: datetime where
  "DATETIME_MAX = 253402300799999999"

definition DATETIME_MIN :: datetime where
  "DATETIME_MIN = - 62135596800000000"

definition timedelta_days :: "int \<Rightarrow> int" where
  "timedelta_days d = d * 86400000000"

definition datetime_add :: "datetime \<Rightarrow> int \<Rightarrow> py_error + datetime" where
  "datetime_add t d =
     (if DATETIME_MIN \<le> t + d \<and> t + d \<le> DATETIME_MAX then Inr (t + d) else Inl OverflowError)"

section \<open>Refresh-credential expiry (schwab/auth.py, TokenManager.is_refresh_token_expired)\<close>

text \<open>
  \<^verbatim>\<open>return datetime.now(timezone.utc) > (self.created_timestamp + timedelta(days=7))\<close>;
  the first argument is the reading of the clock.
\<close>

definition is_refresh_token_expired :: "datetime \<Rightarrow> datetime \<Rightarrow> py_error + bool" where
  "is_refresh_token_expired now created_timestamp =
     (case datetime_add created_timestamp (timedelta_days 7) of
        Inl e \<Rightarrow> Inl e
      | Inr limit \<Rightarrow> Inr (now > limit))"

section \<open>Market session gate (app.py, market_status_interrupt; schwab/utils.py, check_mkt_hours)\<close>

text \<open>
  The shared dictionary \<open>mkt_status\<close>: its times are \<open>None\<close> when the market is closed
  that day (schwab/client.py, is_market_open).
\<close>

record mkt_status =
  status :: "bool option"
  openTime :: "datetime option"
  closeTime :: "datetime option"

text \<open>
  \<^verbatim>\<open>mkt_open = mkt_status["openTime"] <= now <= mkt_status["closeTime"]\<close>: a chained
  comparison, the second one evaluated only when the first holds; comparing \<open>None\<close> with a
  datetime raises \<open>TypeError\<close>.
\<close>

definition mkt_open :: "mkt_status \<Rightarrow> datetime \<Rightarrow> py_error + bool" where
  "mkt_open ms now =
     (case openTime ms of
        None \<Rightarrow> Inl TypeError
      | Some ot \<Rightarrow>
          if ot \<le> now
          then (case closeTime ms of None \<Rightarrow> Inl TypeError | Some ct \<Rightarrow> Inr (now \<le> ct))
          else Inr False)"

text \<open>
  The loop of \<open>market_status_interrupt\<close>: each iteration reads the shared dictionary and the
  clock and sets or clears the event; an exception leaves the loop (it is logged by the
  handler around the loop) with the event as it was.  The list holds what each iteration
  reads; the result is the event after them.
\<close>

fun market_status_interrupt :: "(mkt_status \<times> datetime) list \<Rightarrow> bool \<Rightarrow> bool" where
  "market_status_interrupt [] mkt_interrupt = mkt_interrupt"
| "market_status_interrupt ((ms, now) # later) mkt_interrupt =
     (case mkt_open ms now of
        Inl e \<Rightarrow> mkt_interrupt
      | Inr b \<Rightarrow> market_status_interrupt later b)"

text \<open>
  \<open>check_mkt_hours\<close>, which fills the \<open>status\<close> field; \<open>fromisoformat\<close> stands for
  \<open>datetime.fromisoformat(_).astimezone(timezone.utc)\<close>, the third argument is the clock.
\<close>

definition check_mkt_hours ::
  "(string \<Rightarrow> py_error + datetime) \<Rightarrow> string \<Rightarrow> string \<Rightarrow> datetime \<Rightarrow> py_error + bool" where
  "check_mkt_hours fromisoformat otime ctime current_time =
     (case fromisoformat otime of
        Inl e \<Rightarrow> Inl e
      | Inr open_time \<Rightarrow>
          (case fromisoformat ctime of
             Inl e \<Rightarrow> Inl e
           | Inr close_time \<Rightarrow> Inr (open_time < current_time \<and> current_time < close_time)))"

section \<open>JSON values\<close>

text \<open>
  A Python float: a finite one is \<open>m * 2 ^ e\<close>, written \<open>Float m e\<close>; the others are the
  values \<open>json.loads\<close> gives for \<open>NaN\<close>, \<open>Infinity\<close> and \<open>-Infinity\<close>.
\<close>

datatype py_float = Float int int | NaN | Infinity | NegInfinity

text \<open>
  The values \<open>json.loads\<close> returns and \<open>json.dumps\<close> accepts: \<open>None\<close>, booleans, integers,
  floats, strings, lists and dictionaries with string keys.  A dictionary is an
  association list in insertion order, its keys distinct.
\<close>

datatype json =
    JNull
  | JBool bool
  | JInt int
  | JFloat py_float
  | JStr string
  | JList "json list"
  | JDict "(string \<times> json) list"

text \<open>Python's truth value of an object, as \<open>not x\<close> and \<open>if x\<close> test it.\<close>

fun truthy :: "json \<Rightarrow> bool" where
  "truthy JNull = False"
| "truthy (JBool b) = b"
| "truthy (JInt n) = (n \<noteq> 0)"
| "truthy (JFloat (Float m e)) = (m \<noteq> 0)"
| "truthy (JFloat f) = True"
| "truthy (JStr s) = (s \<noteq> [])"
| "truthy (JList xs) = (xs \<noteq> [])"
| "truthy (JDict kvs) = (kvs \<noteq> [])"

text \<open>
  \<open>x[key]\<close> for a string key: \<open>KeyError\<close> on a dictionary without the key, \<open>TypeError\<close> on
  anything that is not a dictionary.
\<close>

fun getitem_key :: "json \<Rightarrow> string \<Rightarrow> py_error + json" where
  "getitem_key (JDict kvs) k = (case map_of kvs k of None \<Rightarrow> Inl KeyError | Some v \<Rightarrow> Inr v)"
| "getitem_key _ k = Inl TypeError"

text \<open>
  \<open>x[0]\<close>: the first element of a list or the first character of a string, \<open>IndexError\<close>
  when empty; a dictionary has string keys only, so \<open>KeyError\<close>; \<open>TypeError\<close> otherwise.
\<close>

fun getitem_0 :: "json \<Rightarrow> py_error + json" where
  "getitem_0 (JList []) = Inl IndexError"
| "getitem_0 (JList (x # xs)) = Inr x"
| "getitem_0 (JStr []) = Inl IndexError"
| "getitem_0 (JStr (c # cs)) = Inr (JStr [c])"
| "getitem_0 (JDict kvs) = Inl KeyError"
| "getitem_0 _ = Inl TypeError"

text \<open>
  \<open>x == 0\<close>: an integer zero, a float zero, or \<open>False\<close> (Python's \<open>False == 0\<close> and
  \<open>0.0 == 0\<close> hold).
\<close>

fun eq_zero :: "json \<Rightarrow> bool" where
  "eq_zero (JInt n) = (n = 0)"
| "eq_zero (JFloat (Float m e)) = (m = 0)"
| "eq_zero (JBool b) = (\<not> b)"
| "eq_zero _ = False"

text \<open>
  \<open>json.loads\<close> and \<open>json.dumps\<close> are library code: the model does not parse.  A message
  (a text or binary frame, a stored value) is represented by what \<open>json.loads\<close> does with
  it: \<open>JsonText v\<close> is a message for which it returns \<open>v\<close>, as for the text \<open>json.dumps\<close>
  makes of \<open>v\<close>; \<open>Undecodable e\<close> is a message on which it raises \<open>e\<close>:
  \<open>JSONDecodeError\<close> for a text that is not valid JSON, \<open>UnicodeDecodeError\<close> for bytes that
  are not valid UTF-8 (as \<^verbatim>\<open>b'\xff'\<close>), \<open>RecursionError\<close> for a text nested too
  deep, \<open>ValueError\<close> for an integer of too many digits.
\<close>

datatype wire_msg = JsonText json | Undecodable py_error

definition json_dumps :: "json \<Rightarrow> wire_msg" where
  "json_dumps v = JsonText v"

fun json_loads :: "wire_msg \<Rightarrow> py_error + json" where
  "json_loads (JsonText v) = Inr v"
| "json_loads (Undecodable e) = Inl e"

text \<open>\<open>str(n)\<close> of an integer: decimal digits, a minus sign for a negative number.\<close>

definition digit_char :: "nat \<Rightarrow> char" where
  "digit_char d = char_of (48 + d)"

fun str_nat :: "nat \<Rightarrow> string" where
  "str_nat n = (if n < 10 then [digit_char n] else str_nat (n div 10) @ [digit_char (n mod 10)])"

declare str_nat.simps [simp del]

definition str_int :: "int \<Rightarrow> string" where
  "str_int i = (if i < 0 then CHR ''-'' # str_nat (nat (- i)) else str_nat (nat i))"

text \<open>\<open>int(s)\<close> on such a string, used to read a request id back.\<close>

definition nat_of_digits :: "string \<Rightarrow> nat" where
  "nat_of_digits s = foldl (\<lambda>a c. 10 * a + (of_char c - 48)) 0 s"

definition int_of_str :: "string \<Rightarrow> int" where
  "int_of_str s =
     (case s of
        [] \<Rightarrow> 0
      | c # cs \<Rightarrow> if c = CHR ''-'' then - int (nat_of_digits cs) else int (nat_of_digits s))"

section \<open>Duplex stream session (schwab/utils.py, CustomSocket; schwab/streamer.py, StreamClient)\<close>

text \<open>
  The fields of a \<open>StreamClient\<close>.  A queue is the list of its items, oldest first,
  with the count of unfinished tasks that \<open>asyncio.Queue\<close> keeps (\<open>put\<close> adds one,
  \<open>task_done\<close> takes one off).  \<open>wire_out\<close> is what has been written to the socket,
  \<open>logged\<close> the messages given to the logger; \<open>client_token\<close> is \<open>self.client.token\<close>.
\<close>

record stream_client =
  user_preference :: json
  client_token :: json
  stream_customer_id :: json
  stream_correl_id :: json
  stream_channel :: json
  stream_function_id :: json
  stream_socket_url :: json
  request_id :: int
  send_queue :: "wire_msg list"
  send_unfinished :: nat
  receive_queue :: "wire_msg list"
  receive_unfinished :: nat
  ws_open :: bool
  wire_out :: "wire_msg list"
  logged :: "string list"

definition StreamClient_init :: "json \<Rightarrow> json \<Rightarrow> stream_client" where
  "StreamClient_init tok prefs =
     \<lparr>user_preference = prefs, client_token = tok,
      stream_customer_id = JNull, stream_correl_id = JNull, stream_channel = JNull,
      stream_function_id = JNull, stream_socket_url = JNull,
      request_id = 0,
      send_queue = [], send_unfinished = 0,
      receive_queue = [], receive_unfinished = 0,
      ws_open = False, wire_out = [], logged = []\<rparr>"

definition log_msg :: "string \<Rightarrow> stream_client \<Rightarrow> stream_client" where
  "log_msg m s = s\<lparr>logged := logged s @ [m]\<rparr>"

subsection \<open>Queues and loops of CustomSocket\<close>

text \<open>\<open>produce\<close>: \<^verbatim>\<open>await self.send_queue.put(json.dumps(request))\<close>.\<close>

definition produce :: "json \<Rightarrow> stream_client \<Rightarrow> stream_client" where
  "produce request s =
     s\<lparr>send_queue := send_queue s @ [json_dumps request],
       send_unfinished := send_unfinished s + 1\<rparr>"

text \<open>
  One iteration of the loop of \<open>_send_msg\<close>, with the exception that ends the task, if
  any.  With the socket closed it sleeps and goes on; with an empty queue the wait times
  out and it goes on; otherwise the oldest item is taken off the queue and sent.  \<open>send\<close>
  of the websocket either succeeds, and the task is marked done (\<open>task_done\<close> raises
  \<open>ValueError\<close>, caught by no handler of the loop, when no task is unfinished), or raises
  \<open>ConnectionClosed\<close>, which is logged: the item is gone.
\<close>

datatype send_result = SendOk | SendConnectionClosed

definition send_msg_iter :: "send_result \<Rightarrow> stream_client \<Rightarrow> py_error option \<times> stream_client" where
  "send_msg_iter res s =
     (if \<not> ws_open s then (None, log_msg ''Connection is closed. Try re-connecting.'' s)
      else (case send_queue s of
              [] \<Rightarrow> (None, s)
            | msg_to_send # rest \<Rightarrow>
                (case res of
                   SendOk \<Rightarrow>
                     (let s1 = s\<lparr>send_queue := rest, wire_out := wire_out s @ [msg_to_send]\<rparr>
                      in if send_unfinished s1 = 0 then (Some ValueError, s1)
                         else (None, s1\<lparr>send_unfinished := send_unfinished s1 - 1\<rparr>))
                 | SendConnectionClosed \<Rightarrow>
                     (None, log_msg ''Socket error'' (s\<lparr>send_queue := rest\<rparr>)))))"

text \<open>
  One iteration of the loop of \<open>_recv_msg\<close>: a message read from the socket is put on the
  receive queue; a timeout passes silently; the exceptions are logged.
\<close>

datatype recv_result = RecvMsg wire_msg | RecvTimeout | RecvConnectionClosed | RecvOtherError

definition recv_msg_iter :: "recv_result \<Rightarrow> stream_client \<Rightarrow> stream_client" where
  "recv_msg_iter res s =
     (if \<not> ws_open s then log_msg ''Connection is closed. Try re-connecting.'' s
      else (case res of
              RecvMsg msg \<Rightarrow>
                s\<lparr>receive_queue := receive_queue s @ [msg],
                  receive_unfinished := receive_unfinished s + 1\<rparr>
            | RecvTimeout \<Rightarrow> s
            | RecvConnectionClosed \<Rightarrow> log_msg ''Connection closed error'' s
            | RecvOtherError \<Rightarrow> log_msg ''Unexpected error'' s))"

text \<open>
  \<open>task_done\<close> of the receive queue: \<open>ValueError\<close> when called more often than items were
  put.  It runs in the \<open>finally\<close> clause of \<open>consume\<close>: an exception it raises replaces the
  outcome of the \<open>try\<close> statement.
\<close>

definition finally_task_done ::
  "(py_error + json) \<times> stream_client \<Rightarrow> (py_error + json) \<times> stream_client" where
  "finally_task_done rs =
     (case rs of (r, s) \<Rightarrow>
        if receive_unfinished s = 0 then (Inl ValueError, s)
        else (r, s\<lparr>receive_unfinished := receive_unfinished s - 1\<rparr>))"

text \<open>
  \<open>consume\<close>.  \<open>await self.receive_queue.get()\<close> waits for an item: on an empty queue it
  does not return before something is put, which is the result \<open>None\<close>.  Otherwise the
  result is the exception raised or the value returned (\<open>JNull\<close> is Python's \<open>None\<close>),
  with the new state.
\<close>

definition consume :: "stream_client \<Rightarrow> ((py_error + json) \<times> stream_client) option" where
  "consume s =
     (case receive_queue s of
        [] \<Rightarrow> None
      | msg_str # rest \<Rightarrow>
          (let s1 = s\<lparr>receive_queue := rest\<rparr>
           in Some (finally_task_done
                (case json_loads msg_str of
                   Inr v \<Rightarrow> (Inr v, s1)
                 | Inl e \<Rightarrow>
                     if e = QueueEmpty then (Inr JNull, log_msg ''Queue is empty.'' s1)
                     else if e = JSONDecodeError then (Inr JNull, log_msg ''Consume failed.'' s1)
                     else (Inl e, s1)))))"

text \<open>
  The session as its environment drives it: a caller produces a message, the sender task
  runs one iteration of its loop (with the outcome of \<open>send\<close>, should it send), the socket
  closes or is opened again.  The flag tells whether the sender task is still running.
\<close>

datatype event = Produce json | SenderIteration send_result | SocketClosed | SocketOpened

fun step :: "event \<Rightarrow> bool \<times> stream_client \<Rightarrow> bool \<times> stream_client" where
  "step (Produce request) (running, s) = (running, produce request s)"
| "step (SenderIteration res) (running, s) =
     (if running
      then (case send_msg_iter res s of (None, s') \<Rightarrow> (True, s') | (Some e, s') \<Rightarrow> (False, s'))
      else (running, s))"
| "step SocketClosed (running, s) = (running, s\<lparr>ws_open := False\<rparr>)"
| "step SocketOpened (running, s) = (running, s\<lparr>ws_open := True\<rparr>)"

fun run_events :: "event list \<Rightarrow> bool \<times> stream_client \<Rightarrow> bool \<times> stream_client" where
  "run_events [] rs = rs"
| "run_events (ev # evs) rs = run_events evs (step ev rs)"

text \<open>The messages produced by a list of events, in order of submission.\<close>

fun produced :: "event list \<Rightarrow> json list" where
  "produced [] = []"
| "produced (Produce request # evs) = request # produced evs"
| "produced (ev # evs) = produced evs"

subsection \<open>Requests of StreamClient\<close>

text \<open>\<open>request_format\<close>: the envelope and the session with the counter incremented.\<close>

definition request_format ::
  "string \<Rightarrow> string \<Rightarrow> json \<Rightarrow> stream_client \<Rightarrow> json \<times> stream_client" where
  "request_format service command params s =
     (let request_id' = request_id s;
          s1 = s\<lparr>request_id := request_id s + 1\<rparr>
      in (JDict [(''service'', JStr service),
                 (''requestid'', JStr (str_int request_id')),
                 (''command'', JStr command),
                 (''SchwabClientCustomerId'', stream_customer_id s1),
                 (''SchwabClientCorrelId'', stream_correl_id s1),
                 (''parameters'', params)], s1))"

text \<open>
  The first lines of \<open>subscribe_service\<close>, up to the request built: the counter is
  incremented before the lookups in \<open>service_dict\<close>, which may raise.
\<close>

definition subscribe_request :: "json \<Rightarrow> stream_client \<Rightarrow> (py_error + json) \<times> stream_client" where
  "subscribe_request service_dict s =
     (let request_id' = request_id s;
          s1 = s\<lparr>request_id := request_id s + 1\<rparr>
      in (case getitem_key service_dict ''service'' of
            Inl e \<Rightarrow> (Inl e, s1)
          | Inr service \<Rightarrow>
              (case getitem_key service_dict ''command'' of
                 Inl e \<Rightarrow> (Inl e, s1)
               | Inr command \<Rightarrow>
                   (case getitem_key service_dict ''parameters'' of
                      Inl e \<Rightarrow> (Inl e, s1)
                    | Inr parameters \<Rightarrow>
                        (Inr (JDict [(''service'', service),
                                     (''requestid'', JStr (str_int request_id')),
                                     (''command'', command),
                                     (''SchwabClientCustomerId'', stream_customer_id s1),
                                     (''SchwabClientCorrelId'', stream_correl_id s1),
                                     (''parameters'', parameters)]), s1)))))"

definition subscribe_service :: "json \<Rightarrow> stream_client \<Rightarrow> py_error option \<times> stream_client" where
  "subscribe_service service_dict s =
     (case subscribe_request service_dict s of
        (Inl e, s1) \<Rightarrow> (Some e, s1)
      | (Inr request, s1) \<Rightarrow> (None, produce (JDict [(''requests'', JList [request])]) s1))"

text \<open>
  A sequence of request constructions in one session: the login request that \<open>connect\<close>
  builds with \<open>request_format\<close>, and subscriptions.  \<open>issue_requests\<close> gives the envelopes
  built, in order; a subscription whose lookups raise builds none.
\<close>

datatype request_op = LoginRequest json | Subscribe json

fun issue_request :: "request_op \<Rightarrow> stream_client \<Rightarrow> (py_error + json) \<times> stream_client" where
  "issue_request (LoginRequest params) s =
     (case request_format ''ADMIN'' ''LOGIN'' params s of (request, s1) \<Rightarrow> (Inr request, s1))"
| "issue_request (Subscribe service_dict) s = subscribe_request service_dict s"

fun issue_requests :: "request_op list \<Rightarrow> stream_client \<Rightarrow> json list" where
  "issue_requests [] s = []"
| "issue_requests (r # rs) s =
     (case issue_request r s of
        (Inl e, s1) \<Rightarrow> issue_requests rs s1
      | (Inr request, s1) \<Rightarrow> request # issue_requests rs s1)"

text \<open>The \<open>requestid\<close> of an envelope, as written and as the number it denotes.\<close>

definition requestid :: "json \<Rightarrow> string" where
  "requestid request = (case getitem_key request ''requestid'' of Inr (JStr i) \<Rightarrow> i | _ \<Rightarrow> [])"

definition requestid_num :: "json \<Rightarrow> int" where
  "requestid_num request = int_of_str (requestid request)"

subsection \<open>Login handshake of StreamClient\<close>

text \<open>
  \<open>connect\<close> starts the receiver and the sender task and then waits for the login
  response; while it waits, the event loop runs the three of them in some order.  A turn
  is one iteration of the loop of \<open>_recv_msg\<close> (with what the socket gives it) or of
  \<open>_send_msg\<close> (with the outcome of \<open>send\<close>), or the caller going on from its await.
\<close>

datatype loop_turn = ReceiverTurn recv_result | SenderTurn send_result | CallerTurn

text \<open>
  The polling loop of \<open>_is_login_success\<close> under the turns the event loop takes, in
  order: the caller consumes until a response is truthy; on an empty queue it stays in
  \<open>get\<close> until a later turn.  The result is the exception \<open>consume\<close> raised or the first
  truthy response, with the flag of the sender task and the session; it is \<open>None\<close> when the
  turns end before the loop does, so a call whose turns never bring a truthy response
  never returns.
\<close>

fun login_poll ::
  "loop_turn list \<Rightarrow> bool \<times> stream_client \<Rightarrow>
     ((py_error + json) \<times> bool \<times> stream_client) option" where
  "login_poll [] rs = None"
| "login_poll (ReceiverTurn res # turns) (running, s) =
     login_poll turns (running, recv_msg_iter res s)"
| "login_poll (SenderTurn res # turns) (running, s) =
     login_poll turns (step (SenderIteration res) (running, s))"
| "login_poll (CallerTurn # turns) (running, s) =
     (case consume s of
        None \<Rightarrow> login_poll turns (running, s)
      | Some (Inl e, s1) \<Rightarrow> Some (Inl e, running, s1)
      | Some (Inr login_response, s1) \<Rightarrow>
          if truthy login_response then Some (Inr login_response, running, s1)
          else login_poll turns (running, s1))"

text \<open>\<^verbatim>\<open>login_response["response"][0]["content"]["code"]\<close>\<close>

definition login_status_code :: "json \<Rightarrow> py_error + json" where
  "login_status_code login_response =
     (case getitem_key login_response ''response'' of
        Inl e \<Rightarrow> Inl e
      | Inr response \<Rightarrow>
          (case getitem_0 response of
             Inl e \<Rightarrow> Inl e
           | Inr first \<Rightarrow>
               (case getitem_key first ''content'' of
                  Inl e \<Rightarrow> Inl e
                | Inr content \<Rightarrow> getitem_key content ''code'')))"

text \<open>
  The \<open>try\<close> statement of \<open>_is_login_success\<close>: the comparison of the code with 0, \<open>None\<close>
  after a \<open>KeyError\<close>; any other exception propagates.
\<close>

definition login_status :: "json \<Rightarrow> py_error + json" where
  "login_status login_response =
     (case login_status_code login_response of
        Inr status_code \<Rightarrow> Inr (JBool (eq_zero status_code))
      | Inl e \<Rightarrow> if e = KeyError then Inr JNull else Inl e)"

definition is_login_success ::
  "loop_turn list \<Rightarrow> bool \<times> stream_client \<Rightarrow>
     ((py_error + json) \<times> bool \<times> stream_client) option" where
  "is_login_success turns rs =
     (case login_poll turns rs of
        None \<Rightarrow> None
      | Some (Inl e, rs1) \<Rightarrow> Some (Inl e, rs1)
      | Some (Inr login_response, rs1) \<Rightarrow> Some (login_status login_response, rs1))"

text \<open>
  The \<open>try\<close> body of \<open>_init_login_params\<close>: the exception that leaves it, if any, and the
  session with the fields assigned before.
\<close>

definition read_streamer_info :: "stream_client \<Rightarrow> py_error option \<times> stream_client" where
  "read_streamer_info s =
     (case getitem_key (user_preference s) ''streamerInfo'' of
        Inl e \<Rightarrow> (Some e, s)
      | Inr infos \<Rightarrow>
     (case getitem_0 infos of
        Inl e \<Rightarrow> (Some e, s)
      | Inr stream_info \<Rightarrow>
     (case getitem_key stream_info ''schwabClientCustomerId'' of
        Inl e \<Rightarrow> (Some e, s)
      | Inr v1 \<Rightarrow> let s1 = s\<lparr>stream_customer_id := v1\<rparr> in
     (case getitem_key stream_info ''schwabClientChannel'' of
        Inl e \<Rightarrow> (Some e, s1)
      | Inr v2 \<Rightarrow> let s2 = s1\<lparr>stream_channel := v2\<rparr> in
     (case getitem_key stream_info ''schwabClientCorrelId'' of
        Inl e \<Rightarrow> (Some e, s2)
      | Inr v3 \<Rightarrow> let s3 = s2\<lparr>stream_correl_id := v3\<rparr> in
     (case getitem_key stream_info ''schwabClientFunctionId'' of
        Inl e \<Rightarrow> (Some e, s3)
      | Inr v4 \<Rightarrow> let s4 = s3\<lparr>stream_function_id := v4\<rparr> in
     (case getitem_key stream_info ''streamerSocketUrl'' of
        Inl e \<Rightarrow> (Some e, s4)
      | Inr v5 \<Rightarrow> (None, s4\<lparr>stream_socket_url := v5\<rparr>))))))))"

text \<open>
  \<open>_init_login_params\<close>: a \<open>KeyError\<close> of the body is caught and given to
  \<^verbatim>\<open>logger.debug(..., extra=e)\<close>, another exception propagates; then the parameters
  are built, which reads the access token.  \<open>extra\<close> must be a dictionary: with the logger
  enabled for DEBUG (the first argument) the call raises \<open>TypeError\<close>, which leaves the
  function; otherwise the call does nothing more than take the message.
\<close>

definition login_params :: "stream_client \<Rightarrow> py_error + json" where
  "login_params s =
     (case getitem_key (client_token s) ''access_token'' of
        Inl e \<Rightarrow> Inl e
      | Inr access_token \<Rightarrow>
          Inr (JDict [(''Authorization'', access_token),
                      (''SchwabClientChannel'', stream_channel s),
                      (''SchwabClientFunctionId'', stream_function_id s)]))"

definition init_login_params ::
  "bool \<Rightarrow> stream_client \<Rightarrow> (py_error + json) \<times> stream_client" where
  "init_login_params debug_enabled s =
     (case read_streamer_info s of
        (None, s1) \<Rightarrow> (login_params s1, s1)
      | (Some e, s1) \<Rightarrow>
          if e = KeyError
          then (if debug_enabled then (Inl TypeError, s1)
                else (let s2 = log_msg ''KeyError accessing user preferences params.'' s1
                      in (login_params s2, s2)))
          else (Inl e, s1))"

text \<open>
  \<open>connect\<close>.  The arguments are whether the logger is enabled for DEBUG, the exception
  \<open>ws_client.connect\<close> raises, if any, and the turns the event loop takes once the two
  tasks are started and the login request is on the send queue.  The result is \<open>None\<close>
  when the call has not returned after these turns, else the exception raised, if any,
  whether the sender task runs, and the session.
\<close>

definition connect ::
  "bool \<Rightarrow> py_error option \<Rightarrow> loop_turn list \<Rightarrow> stream_client \<Rightarrow>
     (py_error option \<times> bool \<times> stream_client) option" where
  "connect debug_enabled ws_error turns s =
     (case init_login_params debug_enabled s of
        (Inl e, s1) \<Rightarrow> Some (Some e, False, s1)
      | (Inr login_request_params, s1) \<Rightarrow>
          (case request_format ''ADMIN'' ''LOGIN'' login_request_params s1 of
             (login_request, s2) \<Rightarrow>
               (case ws_error of
                  Some e \<Rightarrow> Some (Some e, False, s2)
                | None \<Rightarrow>
                    (case is_login_success turns
                            (True, produce login_request (s2\<lparr>ws_open := True\<rparr>)) of
                       None \<Rightarrow> None
                     | Some (Inl e, running, s3) \<Rightarrow> Some (Some e, running, s3)
                     | Some (Inr success, running, s3) \<Rightarrow>
                         (let s4 = (if \<not> truthy success then log_msg ''LOGIN FAILED.'' s3
                                    else s3)
                          in Some (None, running, log_msg ''LOGIN SUCCESS.'' s4))))))"

section \<open>Token lifecycle (schwab/auth.py, TokenManager and SchwabAsyncOAuth)\<close>

text \<open>
  A \<open>TokenManager\<close>: the credential payload (\<open>JNull\<close> is \<open>None\<close>) and the creation time.
\<close>

record token_manager =
  token :: json
  created_timestamp :: datetime

text \<open>
  What one call reads from outside the program: whether \<open>connect_db\<close> gives a client
  (the code tests \<open>r is None\<close>), the exception the store raises on \<open>get\<close> and on \<open>set\<close>, if
  any, the conversions between datetimes and \<open>timestamp()\<close> numbers, the answer of
  \<open>OAuth2Token.is_expired()\<close> for a token at a reading of the clock, the four readings of
  the clock (the two calls of \<open>is_expired\<close>, \<open>is_refresh_token_expired\<close>, and the
  \<open>TokenManager\<close> made by a manual authorization), and the answers of the provider to
  \<open>fetch_token\<close> and to \<open>refresh_token\<close> (given the refresh token sent).
\<close>

record auth_env =
  connect_db_ok :: bool
  redis_get_error :: "py_error option"
  redis_set_error :: "py_error option"
  json_of_timestamp :: "datetime \<Rightarrow> json"
  fromtimestamp :: "json \<Rightarrow> py_error + datetime"
  token_is_expired :: "json \<Rightarrow> datetime \<Rightarrow> bool"
  clock_first :: datetime
  clock_second :: datetime
  clock_refresh :: datetime
  clock_manual :: datetime
  fetch_token_response :: "py_error + json"
  refresh_token_response :: "json \<Rightarrow> py_error + json"

text \<open>
  A \<open>SchwabAsyncOAuth\<close> session with the store behind it: \<open>self.token\<close>,
  \<open>self.token_metadata\<close>, the value under the token key in the store, the calls made to
  the provider so far, and the log.
\<close>

datatype provider_call = FetchTokenCall | RefreshCall json

record oauth_session =
  oauth_token :: json
  token_metadata :: token_manager
  store :: "wire_msg option"
  provider_calls :: "provider_call list"
  auth_logged :: "string list"

definition auth_log :: "string \<Rightarrow> oauth_session \<Rightarrow> oauth_session" where
  "auth_log m s = s\<lparr>auth_logged := auth_logged s @ [m]\<rparr>"

text \<open>\<open>TokenManager.save\<close>: the new value of the store, or the exception.\<close>

definition save :: "auth_env \<Rightarrow> token_manager \<Rightarrow> py_error + wire_msg option" where
  "save env tm =
     (if \<not> connect_db_ok env then Inl ValueError
      else (let data = JDict [(''created_timestamp'', json_of_timestamp env (created_timestamp tm)),
                              (''token'', token tm)]
            in case redis_set_error env of
                 Some e \<Rightarrow> Inl e
               | None \<Rightarrow> Inr (Some (json_dumps data))))"

text \<open>
  \<open>TokenManager.load\<close>: \<open>ValueError\<close> without a connection, \<open>TypeError\<close> when the store has
  no record; the fields are assigned last, after everything that can raise.
\<close>

definition load :: "auth_env \<Rightarrow> wire_msg option \<Rightarrow> token_manager \<Rightarrow> py_error + token_manager" where
  "load env stored tm =
     (if \<not> connect_db_ok env then Inl ValueError
      else (case redis_get_error env of
              Some e \<Rightarrow> Inl e
            | None \<Rightarrow>
                (case stored of
                   None \<Rightarrow> Inl TypeError
                 | Some raw \<Rightarrow>
                     (case json_loads raw of
                        Inl e \<Rightarrow> Inl e
                      | Inr data \<Rightarrow>
                          (case getitem_key data ''created_timestamp'' of
                             Inl e \<Rightarrow> Inl e
                           | Inr ts \<Rightarrow>
                               (case fromtimestamp env ts of
                                  Inl e \<Rightarrow> Inl e
                                | Inr created \<Rightarrow>
                                    (case getitem_key data ''token'' of
                                       Inl e \<Rightarrow> Inl e
                                     | Inr tok \<Rightarrow>
                                         Inr (tm\<lparr>token := tok,
                                                created_timestamp := created\<rparr>))))))))"

subsection \<open>The pieces of check_authentication between its awaits\<close>

text \<open>
  \<open>manual_authentication\<close> up to \<open>await self.fetch_token(...)\<close>: the URL is logged, the
  redirect URL is read and logged, the request for a token goes to the provider.
\<close>

definition manual_begin :: "oauth_session \<Rightarrow> oauth_session" where
  "manual_begin s =
     (auth_log ''This was received'' (auth_log ''Visit URL to authorize'' s))
       \<lparr>provider_calls := provider_calls s @ [FetchTokenCall]\<rparr>"

text \<open>
  \<open>manual_authentication\<close> from the answer of the provider on: the token is stored in the
  session, a new \<open>TokenManager\<close> is made for it, with the clock as creation time, and
  saved.
\<close>

definition manual_finish :: "auth_env \<Rightarrow> oauth_session \<Rightarrow> py_error option \<times> oauth_session" where
  "manual_finish env s =
     (case fetch_token_response env of
        Inl e \<Rightarrow> (Some e, s)
      | Inr tok \<Rightarrow>
          (let s1 = s\<lparr>oauth_token := tok,
                      token_metadata := \<lparr>token = tok, created_timestamp = clock_manual env\<rparr>\<rparr>
           in case save env (token_metadata s1) of
                Inl e \<Rightarrow> (Some e, s1)
              | Inr stored \<Rightarrow> (None, s1\<lparr>store := stored\<rparr>)))"

definition manual_authentication ::
  "auth_env \<Rightarrow> oauth_session \<Rightarrow> py_error option \<times> oauth_session" where
  "manual_authentication env s = manual_finish env (manual_begin s)"

text \<open>
  The first statement of \<open>check_authentication\<close>, up to its first await: without a token
  in memory, or with an expired one, the record is loaded; \<open>TypeError\<close> sends to the manual
  authorization, a \<open>ValueError\<close> is raised again as \<open>ValueError\<close>, any other exception
  propagates.
\<close>

datatype load_outcome = LoadDone | LoadManual | LoadRaise py_error

definition load_phase :: "auth_env \<Rightarrow> oauth_session \<Rightarrow> load_outcome \<times> oauth_session" where
  "load_phase env s =
     (if oauth_token s = JNull \<or> token_is_expired env (oauth_token s) (clock_first env)
      then (case load env (store s) (token_metadata s) of
              Inr tm \<Rightarrow> (LoadDone, s\<lparr>token_metadata := tm\<rparr>)
            | Inl e \<Rightarrow>
                if e = TypeError then (LoadManual, s)
                else if is_ValueError e then (LoadRaise ValueError, s)
                else (LoadRaise e, s))
      else (LoadDone, s))"

text \<open>
  The rest of \<open>check_authentication\<close> up to its next await: the token in memory becomes
  that of the metadata; a valid access token returns; else, with a valid refresh token,
  the refresh request goes to the provider with the refresh token of the metadata (an
  exception there is logged and raised again); else the manual authorization starts.
\<close>

datatype validity_outcome =
  ValidReturn | AwaitRefresh json | AwaitManual | ValidRaise py_error

definition validity_phase :: "auth_env \<Rightarrow> oauth_session \<Rightarrow> validity_outcome \<times> oauth_session" where
  "validity_phase env s =
     (let s1 = s\<lparr>oauth_token := token (token_metadata s)\<rparr>
      in if oauth_token s1 = JNull then (ValidRaise AttributeError, s1)
         else if \<not> token_is_expired env (oauth_token s1) (clock_second env)
         then (ValidReturn, s1)
         else (case is_refresh_token_expired (clock_refresh env)
                      (created_timestamp (token_metadata s1)) of
                 Inl e \<Rightarrow> (ValidRaise e, s1)
               | Inr True \<Rightarrow> (AwaitManual, manual_begin s1)
               | Inr False \<Rightarrow>
                   (case getitem_key (token (token_metadata s1)) ''refresh_token'' of
                      Inl e \<Rightarrow> (ValidRaise e, auth_log ''Refreshing access token failed'' s1)
                    | Inr refresh_token \<Rightarrow>
                        (AwaitRefresh refresh_token,
                         s1\<lparr>provider_calls :=
                              provider_calls s1 @ [RefreshCall refresh_token]\<rparr>))))"

text \<open>
  The refresh from the answer of the provider on: the new token replaces the one of the
  session and of the metadata and is saved; an exception is logged and raised again.
\<close>

definition refresh_finish ::
  "auth_env \<Rightarrow> json \<Rightarrow> oauth_session \<Rightarrow> py_error option \<times> oauth_session" where
  "refresh_finish env refresh_token s =
     (case refresh_token_response env refresh_token of
        Inl e \<Rightarrow> (Some e, auth_log ''Refreshing access token failed'' s)
      | Inr tok \<Rightarrow>
          (let s1 = s\<lparr>oauth_token := tok\<rparr>;
               s2 = s1\<lparr>token_metadata := (token_metadata s1)\<lparr>token := oauth_token s1\<rparr>\<rparr>
           in case save env (token_metadata s2) of
                Inl e \<Rightarrow> (Some e, auth_log ''Refreshing access token failed'' s2)
              | Inr stored \<Rightarrow> (None, s2\<lparr>store := stored\<rparr>)))"

subsection \<open>check_authentication, one caller\<close>

text \<open>Lines 201 to 222, run without interruption.\<close>

definition validity :: "auth_env \<Rightarrow> oauth_session \<Rightarrow> py_error option \<times> oauth_session" where
  "validity env s =
     (case validity_phase env s of
        (ValidReturn, s1) \<Rightarrow> (None, s1)
      | (ValidRaise e, s1) \<Rightarrow> (Some e, s1)
      | (AwaitRefresh refresh_token, s1) \<Rightarrow> refresh_finish env refresh_token s1
      | (AwaitManual, s1) \<Rightarrow> manual_finish env s1)"

definition check_authentication ::
  "auth_env \<Rightarrow> oauth_session \<Rightarrow> py_error option \<times> oauth_session" where
  "check_authentication env s =
     (case load_phase env s of
        (LoadRaise e, s1) \<Rightarrow> (Some e, s1)
      | (LoadManual, s1) \<Rightarrow>
          (case manual_authentication env s1 of
             (Some e, s2) \<Rightarrow> (Some e, s2)
           | (None, s2) \<Rightarrow> validity env s2)
      | (LoadDone, s1) \<Rightarrow> validity env s1)"

subsection \<open>check_authentication, several callers on one event loop\<close>

text \<open>
  A caller of \<open>check_authentication\<close> is suspended only at an await: in the manual
  authorization entered after the load, in the refresh (with the refresh token it sent),
  or in the manual authorization entered at the end.  \<open>resume\<close> runs a caller from where
  it is to its next await or to its end, on the session all callers share.
\<close>

datatype task =
  NotStarted | InManualEarly | InRefresh json | InManualLate | Finished "py_error option"

definition after_validity :: "validity_outcome \<times> oauth_session \<Rightarrow> task \<times> oauth_session" where
  "after_validity vs =
     (case vs of
        (ValidReturn, s1) \<Rightarrow> (Finished None, s1)
      | (ValidRaise e, s1) \<Rightarrow> (Finished (Some e), s1)
      | (AwaitRefresh refresh_token, s1) \<Rightarrow> (InRefresh refresh_token, s1)
      | (AwaitManual, s1) \<Rightarrow> (InManualLate, s1))"

fun resume :: "auth_env \<Rightarrow> task \<Rightarrow> oauth_session \<Rightarrow> task \<times> oauth_session" where
  "resume env NotStarted s =
     (case load_phase env s of
        (LoadRaise e, s1) \<Rightarrow> (Finished (Some e), s1)
      | (LoadManual, s1) \<Rightarrow> (InManualEarly, manual_begin s1)
      | (LoadDone, s1) \<Rightarrow> after_validity (validity_phase env s1))"
| "resume env InManualEarly s =
     (case manual_finish env s of
        (Some e, s1) \<Rightarrow> (Finished (Some e), s1)
      | (None, s1) \<Rightarrow> after_validity (validity_phase env s1))"
| "resume env (InRefresh refresh_token) s =
     (case refresh_finish env refresh_token s of (r, s1) \<Rightarrow> (Finished r, s1))"
| "resume env InManualLate s =
     (case manual_finish env s of (r, s1) \<Rightarrow> (Finished r, s1))"
| "resume env (Finished r) s = (Finished r, s)"

text \<open>
  A schedule names, step by step, the caller the event loop resumes and what that caller
  reads from outside until it is suspended again.
\<close>

fun run_tasks ::
  "(nat \<times> auth_env) list \<Rightarrow> task list \<times> oauth_session \<Rightarrow> task list \<times> oauth_session" where
  "run_tasks [] ts = ts"
| "run_tasks ((i, env) # later) (tasks, s) =
     (if i < length tasks
      then (case resume env (tasks ! i) s of
              (t, s1) \<Rightarrow> run_tasks later (tasks[i := t], s1))
      else run_tasks later (tasks, s))"

subsection \<open>A concrete environment and session\<close>

text \<open>
  Used in the examples below: a token with the given access token and expiry (in
  seconds), expired once the clock (in microseconds) is past the expiry; a reachable
  store; a clock at 200 seconds; a provider that answers with the given token; a session
  whose token, created at the epoch, expired at 100 seconds.
\<close>

definition example_token :: "string \<Rightarrow> int \<Rightarrow> json" where
  "example_token access expires_at =
     JDict [(''access_token'', JStr access), (''refresh_token'', JStr ''r0''),
            (''expires_in'', JInt 1800), (''expires_at'', JInt expires_at)]"

definition example_is_expired :: "json \<Rightarrow> datetime \<Rightarrow> bool" where
  "example_is_expired tok now =
     (case getitem_key tok ''expires_at'' of
        Inr (JInt expires_at) \<Rightarrow> expires_at * 1000000 < now
      | _ \<Rightarrow> False)"

definition example_env :: "json \<Rightarrow> auth_env" where
  "example_env answer =
     \<lparr>connect_db_ok = True, redis_get_error = None, redis_set_error = None,
      json_of_timestamp = JInt,
      fromtimestamp = (\<lambda>j. case j of JInt t \<Rightarrow> Inr t | _ \<Rightarrow> Inl TypeError),
      token_is_expired = example_is_expired,
      clock_first = 200000000, clock_second = 200000000,
      clock_refresh = 200000000, clock_manual = 200000000,
      fetch_token_response = Inr answer,
      refresh_token_response = (\<lambda>refresh_token. Inr answer)\<rparr>"

definition example_session :: oauth_session where
  "example_session =
     \<lparr>oauth_token = example_token ''a0'' 100,
      token_metadata = \<lparr>token = example_token ''a0'' 100, created_timestamp = 0\<rparr>,
      store = Some (JsonText (JDict [(''created_timestamp'', JInt 0),
                                     (''token'', example_token ''a0'' 100)])),
      provider_calls = [], auth_logged = []\<rparr>"

chapter \<open>Properties\<close>

section \<open>Properties of the option symbol transform\<close>

lemma first_digit_index_skip:
  assumes "\<forall>c\<in>set root. \<not> isdigit c" and "k \<le> length root"
  shows "first_digit_index (root @ rest) k = first_digit_index (root @ rest) (length root)"
  using assms
proof (induction "length root - k" arbitrary: k)
  case 0
  then show ?case by simp
next
  case (Suc d)
  then have k: "k < length root" by simp
  then have "\<not> isdigit ((root @ rest) ! k)"
    using Suc.prems(1) by (simp add: nth_append)
  then have "first_digit_index (root @ rest) k = first_digit_index (root @ rest) (k + 1)"
    using k by (subst first_digit_index.simps) simp
  also have "\<dots> = first_digit_index (root @ rest) (length root)"
    using Suc.hyps(1)[of "k + 1"] Suc.hyps(2) Suc.prems k by simp
  finally show ?case .
qed

lemma first_digit_index_stop:
  assumes "rest = [] \<or> isdigit (hd rest)"
  shows "first_digit_index (root @ rest) (length root) = length root"
  using assms
  by (subst first_digit_index.simps) (auto simp: nth_append hd_conv_nth)

lemma first_digit_index_root:
  assumes "\<forall>c\<in>set root. \<not> isdigit c" and "rest = [] \<or> isdigit (hd rest)"
  shows "first_digit_index (root @ rest) 0 = length root"
  using first_digit_index_skip[OF assms(1), of 0 rest] first_digit_index_stop[OF assms(2)]
  by simp

text \<open>
  C1: for a compact identifier made of a root without digits, a 6-digit date, one
  option-type character and the strike digits, the transform returns the root
  left-justified to 6 with spaces, the date unchanged, the type character and the strike
  left-justified to 8 with trailing zeros; the two examples of the specification are
  instances.  Purity is that of a HOL function of its argument alone.
\<close>

theorem parse_option_string_format:
  "(\<forall>root date t strike.
      (\<forall>c\<in>set root. \<not> isdigit c) \<and> length date = 6 \<and> (\<forall>c\<in>set date. isdigit c) \<longrightarrow>
      parse_option_string (root @ date @ [t] @ strike) =
        Inr (ljust 6 CHR '' '' root @ date @ [t] @ ljust 8 CHR ''0'' strike))
   \<and> parse_option_string ''AAPL241115C00200'' = Inr ''AAPL  241115C00200000''
   \<and> parse_option_string ''GOOG250101P01500'' = Inr ''GOOG  250101P01500000''"
proof -
  have gen: "parse_option_string (root @ date @ [t] @ strike) =
        Inr (ljust 6 CHR '' '' root @ date @ [t] @ ljust 8 CHR ''0'' strike)"
    if r: "\<forall>c\<in>set root. \<not> isdigit c" and l: "length date = 6"
      and d: "\<forall>c\<in>set date. isdigit c"
    for root date t strike
  proof -
    from l have "date \<noteq> []" by auto
    with d have "isdigit (hd (date @ [t] @ strike))" by simp
    then have i: "first_digit_index (root @ date @ [t] @ strike) 0 = length root"
      using first_digit_index_root[OF r, of "date @ [t] @ strike"] by simp
    have nth: "(root @ date @ [t] @ strike) ! (length root + 6) = t"
      using l by (simp add: nth_append)
    show ?thesis
      unfolding parse_option_string_def Let_def i
      using l nth by simp
  qed
  have a: "parse_option_string ''AAPL241115C00200'' = Inr ''AAPL  241115C00200000''"
    using gen[of "''AAPL''" "''241115''" "CHR ''C''" "''00200''"]
    by (simp add: isdigit_def ljust_def numeral_3_eq_3 numeral_2_eq_2)
  have g: "parse_option_string ''GOOG250101P01500'' = Inr ''GOOG  250101P01500000''"
    using gen[of "''GOOG''" "''250101''" "CHR ''P''" "''01500''"]
    by (simp add: isdigit_def ljust_def numeral_3_eq_3 numeral_2_eq_2)
  from gen a g show ?thesis by blast
qed

theorem parse_option_string_format_witness:
  "parse_option_string ''SPY250620C00450'' = Inr ''SPY   250620C00450000''"
proof -
  have "(\<forall>c\<in>set ''SPY''. \<not> isdigit c) \<and> length ''250620'' = 6
        \<and> (\<forall>c\<in>set ''250620''. isdigit c)"
    by (simp add: isdigit_def)
  then have "parse_option_string (''SPY'' @ ''250620'' @ [CHR ''C''] @ ''00450'') =
        Inr (ljust 6 CHR '' '' ''SPY'' @ ''250620'' @ [CHR ''C''] @ ljust 8 CHR ''0'' ''00450'')"
    using parse_option_string_format by blast
  then show ?thesis by (simp add: ljust_def numeral_3_eq_3)
qed

section \<open>Properties of the refresh-credential expiry\<close>

text \<open>
  C3: the refresh credential at the boundary.  The comments of the code give the refresh
  token less than seven days, and the claim has it invalid from
  \<open>now = created_timestamp + 7 days\<close> on; but the comparison of the code is strict: for
  every creation time whose seven-day limit is a representable datetime, the credential
  is reported expired exactly when \<open>now > created_timestamp + 7 days\<close>, so at the boundary
  it still passes for valid.
\<close>

theorem is_refresh_token_expired_strict:
  "created + timedelta_days 7 \<le> DATETIME_MAX \<and> DATETIME_MIN \<le> created \<longrightarrow>
     is_refresh_token_expired now created = Inr (now > created + timedelta_days 7)
     \<and> is_refresh_token_expired (created + timedelta_days 7) created = Inr False"
  by (simp add: is_refresh_token_expired_def datetime_add_def timedelta_days_def
      DATETIME_MIN_def)

theorem is_refresh_token_expired_strict_witness:
  "is_refresh_token_expired 1730000000000000 1729395200000000 = Inr False
   \<and> is_refresh_token_expired 1730000000000001 1729395200000000 = Inr True"
  using is_refresh_token_expired_strict [of 1729395200000000 1730000000000000]
    is_refresh_token_expired_strict [of 1729395200000000 1730000000000001]
  by (simp add: timedelta_days_def DATETIME_MAX_def DATETIME_MIN_def)

text \<open>
  At the failing input: seven days to the microsecond after a credential created at the
  epoch, the check answers "not expired".
\<close>

lemma is_refresh_token_expired_at_boundary:
  "is_refresh_token_expired 604800000000 0 = Inr False"
  by (simp add: is_refresh_token_expired_def datetime_add_def timedelta_days_def
      DATETIME_MIN_def DATETIME_MAX_def)

section \<open>Properties of the market session gate\<close>

text \<open>
  C4 (as the code has it): for every window the gate is set exactly when
  \<open>openTime \<le> now \<le> closeTime\<close>: clear before the opening time, set at the opening time and
  throughout the window, still set at exactly the closing time, clear after it.
\<close>

theorem market_gate_closed_interval:
  "mkt_open \<lparr>status = st, openTime = Some ot, closeTime = Some ct\<rparr> now
     = Inr (ot \<le> now \<and> now \<le> ct)
   \<and> market_status_interrupt
       [(\<lparr>status = st, openTime = Some ot, closeTime = Some ct\<rparr>, now)] ev
     = (ot \<le> now \<and> now \<le> ct)"
  by (simp add: mkt_open_def)

text \<open>
  The claim as written (clear again at exactly the closing time) fails: with the window
  10:00 to 16:00 of the first day of the epoch and the clock at 16:00, the gate is set.
\<close>

theorem market_gate_close_boundary_counterexample:
  "market_status_interrupt
     [(\<lparr>status = Some True, openTime = Some 36000000000, closeTime = Some 57600000000\<rparr>,
       57600000000)] False = True"
  by (simp add: mkt_open_def)

section \<open>Properties of the stream session\<close>

subsection \<open>Decimal request ids\<close>

lemma of_char_digit_char: "d < 10 \<Longrightarrow> (of_char (digit_char d) :: nat) = 48 + d"
  by (simp add: digit_char_def)

lemma nat_of_digits_snoc: "nat_of_digits (s @ [c]) = 10 * nat_of_digits s + (of_char c - 48)"
  by (simp add: nat_of_digits_def)

lemma nat_of_digits_str_nat: "nat_of_digits (str_nat n) = n"
proof (induction n rule: str_nat.induct)
  case (1 n)
  show ?case
  proof (cases "n < 10")
    case True
    then show ?thesis
      by (subst str_nat.simps) (simp add: nat_of_digits_def of_char_digit_char)
  next
    case False
    then have "nat_of_digits (str_nat n) = 10 * (n div 10) + (n mod 10)"
      using 1 by (subst str_nat.simps) (simp add: nat_of_digits_snoc of_char_digit_char)
    then show ?thesis by simp
  qed
qed

lemma str_nat_hd: "str_nat n \<noteq> [] \<and> hd (str_nat n) \<noteq> CHR ''-''"
proof (induction n rule: str_nat.induct)
  case (1 n)
  show ?case
  proof (cases "n < 10")
    case True
    have "(of_char (digit_char n) :: nat) \<noteq> of_char CHR ''-''"
      using True by (simp add: of_char_digit_char)
    then have "digit_char n \<noteq> CHR ''-''" by auto
    then show ?thesis using True by (subst (1 2) str_nat.simps) simp
  next
    case False
    then show ?thesis using 1 by (subst (1 2) str_nat.simps) simp
  qed
qed

lemma int_of_str_str_int: "int_of_str (str_int i) = i"
proof (cases "i < 0")
  case True
  then show ?thesis
    by (simp add: int_of_str_def str_int_def nat_of_digits_str_nat)
next
  case False
  obtain c cs where s: "str_nat (nat i) = c # cs" and c: "c \<noteq> CHR ''-''"
    using str_nat_hd[of "nat i"] by (cases "str_nat (nat i)") auto
  have "nat_of_digits (c # cs) = nat i"
    using nat_of_digits_str_nat[of "nat i"] s by simp
  then show ?thesis using False s c
    by (simp add: int_of_str_def str_int_def)
qed

subsection \<open>Request ids of a session\<close>

lemma issue_request_counter:
  "issue_request r s = (res, s1) \<Longrightarrow> request_id s1 = request_id s + 1"
  by (cases r)
    (auto simp: request_format_def subscribe_request_def Let_def split: sum.splits)

lemma issue_request_requestid:
  "issue_request r s = (Inr request, s1) \<Longrightarrow> requestid request = str_int (request_id s)"
  by (cases r)
    (auto simp: request_format_def subscribe_request_def Let_def requestid_def
      split: sum.splits)

lemma issue_requests_length: "length (issue_requests ops s) \<le> length ops"
proof (induction ops arbitrary: s)
  case Nil
  then show ?case by simp
next
  case (Cons r rs)
  obtain res s1 where r: "issue_request r s = (res, s1)" by (cases "issue_request r s")
  show ?case using Cons[of s1] r by (cases res) (auto simp: le_SucI)
qed

lemma issue_requests_ids:
  "sorted_wrt (<) (map requestid_num (issue_requests ops s))
   \<and> (\<forall>request\<in>set (issue_requests ops s).
         request_id s \<le> requestid_num request
         \<and> requestid request = str_int (requestid_num request))
   \<and> (length (issue_requests ops s) = length ops \<longrightarrow>
        map requestid_num (issue_requests ops s) =
          map (\<lambda>k. request_id s + int k) [0..<length ops])"
proof (induction ops arbitrary: s)
  case Nil
  then show ?case by simp
next
  case (Cons r rs)
  obtain res s1 where r: "issue_request r s = (res, s1)" by (cases "issue_request r s")
  have c: "request_id s1 = request_id s + 1" using r by (rule issue_request_counter)
  note IH = Cons[of s1]
  show ?case
  proof (cases res)
    case (Inl e)
    have "length (issue_requests rs s1) \<noteq> Suc (length rs)"
      using issue_requests_length[of rs s1] by simp
    then show ?thesis using IH r Inl c by auto
  next
    case (Inr request)
    have rid: "requestid request = str_int (request_id s)"
      using r Inr issue_request_requestid by simp
    then have num: "requestid_num request = request_id s"
      by (simp add: requestid_num_def int_of_str_str_int)
    have m: "map (\<lambda>k. request_id s + int k) [0..<Suc (length rs)] =
          request_id s # map (\<lambda>k. request_id s1 + int k) [0..<length rs]"
      unfolding c
      by (simp add: upt_rec[of 0] map_Suc_upt[symmetric] del: upt_Suc)
    show ?thesis using IH r Inr c rid num m by (auto simp del: upt_Suc)
  qed
qed

lemma requestid_distinct:
  assumes "sorted_wrt (<) (map requestid_num xs)"
  shows "distinct (map requestid xs)"
proof -
  have "distinct (map requestid_num xs)"
    using assms strict_sorted_iff by blast
  moreover have "requestid_num = int_of_str \<circ> requestid"
    by (rule ext) (simp add: requestid_num_def)
  ultimately have "distinct (map (int_of_str \<circ> requestid) xs)"
    by simp
  then show ?thesis
    by (metis distinct_map map_map)
qed

text \<open>
  C5: for every sequence of request constructions (login and subscriptions) from any
  session state, the request ids of the envelopes built are strictly increasing in
  submission order as numbers, pairwise distinct as written, none below the counter the
  session started with; when every construction builds its envelope they are that
  counter, the next, and so on.  A new session starts at 0.
\<close>

theorem requestid_unique_increasing:
  "sorted_wrt (<) (map requestid_num (issue_requests ops s))
   \<and> distinct (map requestid (issue_requests ops s))
   \<and> (\<forall>request\<in>set (issue_requests ops s).
         request_id s \<le> requestid_num request
         \<and> requestid request = str_int (requestid_num request))
   \<and> (length (issue_requests ops s) = length ops \<longrightarrow>
        map requestid_num (issue_requests ops s) =
          map (\<lambda>k. request_id s + int k) [0..<length ops])
   \<and> request_id (StreamClient_init tok prefs) = 0"
  using issue_requests_ids[of ops s] requestid_distinct[of "issue_requests ops s"]
  by (simp add: StreamClient_init_def)

theorem requestid_unique_increasing_witness:
  "map requestid_num
     (issue_requests
        [LoginRequest (JDict [(''Authorization'', JStr ''t'')]),
         Subscribe (JDict [(''service'', JStr ''LEVELONE_EQUITIES''),
                           (''command'', JStr ''SUBS''),
                           (''parameters'', JDict [(''keys'', JStr ''SPY'')])])]
        (StreamClient_init JNull JNull)) = [0, 1]"
proof -
  let ?ops = "[LoginRequest (JDict [(''Authorization'', JStr ''t'')]),
         Subscribe (JDict [(''service'', JStr ''LEVELONE_EQUITIES''),
                           (''command'', JStr ''SUBS''),
                           (''parameters'', JDict [(''keys'', JStr ''SPY'')])])]"
  let ?s = "StreamClient_init JNull JNull"
  have len: "length (issue_requests ?ops ?s) = length ?ops"
    by (simp add: request_format_def subscribe_request_def Let_def)
  have "map requestid_num (issue_requests ?ops ?s) =
          map (\<lambda>k. request_id ?s + int k) [0..<length ?ops]"
    using requestid_unique_increasing[of ?ops ?s] len by blast
  then show ?thesis
    by (simp add: StreamClient_init_def upt_rec)
qed

subsection \<open>Order of the outbound queue\<close>

lemma subseq_drop_mid: "subseq (xs @ ys) (xs @ y # ys)"
  by (induction xs) auto

lemma step_outbound_subseq:
  "subseq (wire_out (snd (step ev rs)) @ send_queue (snd (step ev rs)))
     ((wire_out (snd rs) @ send_queue (snd rs)) @ map json_dumps (produced [ev]))"
  by (cases ev; cases rs)
    (auto simp: produce_def send_msg_iter_def log_msg_def Let_def subseq_drop_mid
      split: list.splits send_result.splits if_splits)

lemma step_outbound_eq:
  "ev \<noteq> SenderIteration SendConnectionClosed \<Longrightarrow>
   wire_out (snd (step ev rs)) @ send_queue (snd (step ev rs)) =
     (wire_out (snd rs) @ send_queue (snd rs)) @ map json_dumps (produced [ev])"
  by (cases ev; cases rs)
    (auto simp: produce_def send_msg_iter_def log_msg_def Let_def
      split: list.splits send_result.splits if_splits)

lemma produced_Cons: "produced (ev # evs) = produced [ev] @ produced evs"
  by (cases ev) auto

lemma run_outbound_subseq:
  "subseq (wire_out (snd (run_events evs rs)) @ send_queue (snd (run_events evs rs)))
     ((wire_out (snd rs) @ send_queue (snd rs)) @ map json_dumps (produced evs))"
proof (induction evs arbitrary: rs)
  case Nil
  then show ?case by simp
next
  case (Cons ev evs)
  have "subseq (wire_out (snd (run_events evs (step ev rs)))
                  @ send_queue (snd (run_events evs (step ev rs))))
     ((wire_out (snd (step ev rs)) @ send_queue (snd (step ev rs)))
        @ map json_dumps (produced evs))"
    by (rule Cons)
  also have "subseq ((wire_out (snd (step ev rs)) @ send_queue (snd (step ev rs)))
        @ map json_dumps (produced evs))
      (((wire_out (snd rs) @ send_queue (snd rs)) @ map json_dumps (produced [ev]))
        @ map json_dumps (produced evs))"
    by (rule list_emb_append_mono[OF step_outbound_subseq]) simp
  finally show ?case
    by (subst produced_Cons) simp
qed

lemma run_outbound_eq:
  "SenderIteration SendConnectionClosed \<notin> set evs \<Longrightarrow>
   wire_out (snd (run_events evs rs)) @ send_queue (snd (run_events evs rs)) =
     (wire_out (snd rs) @ send_queue (snd rs)) @ map json_dumps (produced evs)"
proof (induction evs arbitrary: rs)
  case Nil
  then show ?case by simp
next
  case (Cons ev evs)
  then have "wire_out (snd (run_events evs (step ev rs)))
               @ send_queue (snd (run_events evs (step ev rs))) =
     (wire_out (snd (step ev rs)) @ send_queue (snd (step ev rs)))
       @ map json_dumps (produced evs)"
    by simp
  also have "wire_out (snd (step ev rs)) @ send_queue (snd (step ev rs)) =
      (wire_out (snd rs) @ send_queue (snd rs)) @ map json_dumps (produced [ev])"
    using Cons.prems by (intro step_outbound_eq) auto
  finally show ?case
    by (subst produced_Cons) simp
qed

text \<open>
  C6: whatever the interleaving of producers, iterations of the sender loop and socket
  events, the messages written to the socket are, in their order, among those that were
  waiting and those produced in order of submission: none is written before one
  submitted earlier that is written too, none twice.  When no \<open>send\<close> raises, what is
  written followed by what still waits is exactly that sequence, so the messages
  written are its first ones, in submission order.
\<close>

theorem outbound_queue_fifo:
  "subseq (wire_out (snd (run_events evs (running, s))))
     (wire_out s @ send_queue s @ map json_dumps (produced evs))
   \<and> (SenderIteration SendConnectionClosed \<notin> set evs \<longrightarrow>
        wire_out (snd (run_events evs (running, s)))
          @ send_queue (snd (run_events evs (running, s))) =
        wire_out s @ send_queue s @ map json_dumps (produced evs))"
proof -
  have "subseq (wire_out (snd (run_events evs (running, s))))
      (wire_out (snd (run_events evs (running, s)))
         @ send_queue (snd (run_events evs (running, s))))"
    by (rule prefix_imp_subseq) simp
  then have "subseq (wire_out (snd (run_events evs (running, s))))
      (wire_out s @ send_queue s @ map json_dumps (produced evs))"
    using run_outbound_subseq[of evs "(running, s)"] subseq_order.order_trans by fastforce
  then show ?thesis
    using run_outbound_eq[of evs "(running, s)"] by simp
qed

theorem outbound_queue_fifo_witness:
  "wire_out (snd (run_events
      [Produce (JStr ''m1''), Produce (JStr ''m2''), SenderIteration SendOk,
       Produce (JStr ''m3''), SenderIteration SendOk, SenderIteration SendOk]
      (True, (StreamClient_init JNull JNull)\<lparr>ws_open := True\<rparr>)))
   = [JsonText (JStr ''m1''), JsonText (JStr ''m2''), JsonText (JStr ''m3'')]"
proof -
  let ?evs = "[Produce (JStr ''m1''), Produce (JStr ''m2''), SenderIteration SendOk,
       Produce (JStr ''m3''), SenderIteration SendOk, SenderIteration SendOk]"
  let ?s = "(StreamClient_init JNull JNull)\<lparr>ws_open := True\<rparr>"
  have no: "SenderIteration SendConnectionClosed \<notin> set ?evs" by simp
  have q: "send_queue (snd (run_events ?evs (True, ?s))) = []"
    by (simp add: StreamClient_init_def produce_def send_msg_iter_def json_dumps_def)
  have "wire_out (snd (run_events ?evs (True, ?s))) @ send_queue (snd (run_events ?evs (True, ?s)))
      = wire_out ?s @ send_queue ?s @ map json_dumps (produced ?evs)"
    using outbound_queue_fifo[of ?evs True ?s] no by blast
  then show ?thesis
    unfolding q by (simp add: StreamClient_init_def json_dumps_def)
qed

subsection \<open>Messages that are not JSON\<close>

text \<open>
  The receive queue never holds more items than unfinished tasks: \<open>put\<close> adds one to
  both, \<open>consume\<close> takes one off both.
\<close>

lemma recv_msg_iter_unfinished:
  "length (receive_queue s) \<le> receive_unfinished s \<Longrightarrow>
   length (receive_queue (recv_msg_iter res s)) \<le> receive_unfinished (recv_msg_iter res s)"
  by (auto simp: recv_msg_iter_def log_msg_def split: recv_result.splits)

lemma consume_unfinished:
  "length (receive_queue s) \<le> receive_unfinished s \<Longrightarrow> consume s = Some (r, s1) \<Longrightarrow>
   length (receive_queue s1) \<le> receive_unfinished s1"
  by (auto simp: consume_def finally_task_done_def log_msg_def Let_def
      split: list.splits sum.splits if_splits)

text \<open>
  C10 (as the code has it): on a queue that \<open>put\<close> filled (its unfinished tasks are at
  least its items), when \<open>json.loads\<close> raises \<open>JSONDecodeError\<close> on the oldest inbound
  message, \<open>consume\<close> returns, raises nothing and gives \<open>None\<close>: the item is taken off the
  queue and marked done, and the decode error is logged.  Any other exception of
  \<open>json.loads\<close> is not caught: the item is taken off the queue and marked done, and the
  exception leaves \<open>consume\<close>.
\<close>

theorem consume_invalid_json_returns_none:
  "length (receive_queue s) \<le> receive_unfinished s \<longrightarrow>
     (receive_queue s = Undecodable JSONDecodeError # rest \<longrightarrow>
        consume s = Some (Inr JNull,
          s\<lparr>receive_queue := rest,
            receive_unfinished := receive_unfinished s - 1,
            logged := logged s @ [''Consume failed.'']\<rparr>))
     \<and> (receive_queue s = Undecodable e # rest \<and> e \<noteq> JSONDecodeError \<and> e \<noteq> QueueEmpty
          \<longrightarrow>
        consume s = Some (Inl e,
          s\<lparr>receive_queue := rest,
            receive_unfinished := receive_unfinished s - 1\<rparr>))"
  by (auto simp: consume_def finally_task_done_def log_msg_def Let_def)

theorem consume_invalid_json_returns_none_witness:
  "map_option fst
     (consume ((StreamClient_init JNull JNull)
        \<lparr>receive_queue := [Undecodable JSONDecodeError], receive_unfinished := 1\<rparr>))
   = Some (Inr JNull)
   \<and> map_option fst
     (consume ((StreamClient_init JNull JNull)
        \<lparr>receive_queue := [Undecodable RecursionError], receive_unfinished := 1\<rparr>))
   = Some (Inl RecursionError)"
  using consume_invalid_json_returns_none
    [of "(StreamClient_init JNull JNull)
        \<lparr>receive_queue := [Undecodable JSONDecodeError], receive_unfinished := 1\<rparr>"
      "[]" RecursionError]
    consume_invalid_json_returns_none
    [of "(StreamClient_init JNull JNull)
        \<lparr>receive_queue := [Undecodable RecursionError], receive_unfinished := 1\<rparr>"
      "[]" RecursionError]
  by simp

text \<open>
  The claim as written (no inbound message that is not valid JSON makes \<open>consume\<close>
  raise) fails: a binary frame that is not valid UTF-8, as \<^verbatim>\<open>b'\xff'\<close>, is not
  valid JSON; \<open>json.loads\<close> raises \<open>UnicodeDecodeError\<close> on it, and \<open>consume\<close> raises it
  in turn.
\<close>

theorem consume_unicode_error_counterexample:
  "map_option fst
     (consume ((StreamClient_init JNull JNull)
        \<lparr>receive_queue := [Undecodable UnicodeDecodeError], receive_unfinished := 1\<rparr>))
   = Some (Inl UnicodeDecodeError)"
  by (simp add: consume_def finally_task_done_def StreamClient_init_def)

subsection \<open>Login handshake\<close>

lemma login_status_truthy:
  "(\<exists>v. login_status resp = Inr v \<and> truthy v)
     = (\<exists>code. login_status_code resp = Inr code \<and> eq_zero code)"
  by (auto simp: login_status_def split: sum.splits if_splits)

text \<open>
  Once the receiver has put a truthy response on the empty queue, the caller's next
  turn ends the poll with it, whatever the session.
\<close>

lemma login_poll_reply:
  assumes "receive_queue s = []" and "ws_open s" and "truthy v"
  shows "login_poll (ReceiverTurn (RecvMsg (JsonText v)) # CallerTurn # turns) (running, s)
           = Some (Inr v, running, s)"
  using assms
  by (simp add: recv_msg_iter_def consume_def finally_task_done_def Let_def)

text \<open>
  So \<open>connect\<close> returns, whatever the session it starts from, once the response is
  there and the caller has its turn.
\<close>

lemma init_login_params_receive:
  "init_login_params dbg s = (r, s1) \<Longrightarrow> receive_queue s1 = receive_queue s"
  by (auto simp: init_login_params_def read_streamer_info_def log_msg_def Let_def
      split: sum.splits option.splits if_splits prod.splits)

lemma connect_returns:
  assumes i: "init_login_params dbg s = (Inr params, s1)"
    and q: "receive_queue s = []" and t: "truthy v" and l: "login_status v = Inr success"
  shows "\<exists>s'. connect dbg None (ReceiverTurn (RecvMsg (JsonText v)) # CallerTurn # turns) s
           = Some (None, True, s')"
proof -
  obtain login_request s2 where r: "request_format ''ADMIN'' ''LOGIN'' params s1 = (login_request, s2)"
    by (cases "request_format ''ADMIN'' ''LOGIN'' params s1")
  let ?s = "produce login_request (s2\<lparr>ws_open := True\<rparr>)"
  have "receive_queue s1 = []"
    using init_login_params_receive[OF i] q by simp
  then have "receive_queue s2 = []"
    using r by (auto simp: request_format_def Let_def)
  then have e: "receive_queue ?s = []" and o: "ws_open ?s"
    by (simp_all add: produce_def)
  have "login_poll (ReceiverTurn (RecvMsg (JsonText v)) # CallerTurn # turns) (True, ?s)
      = Some (Inr v, True, ?s)"
    by (rule login_poll_reply[OF e o t])
  then show ?thesis
    using i r l by (simp add: connect_def is_login_success_def Let_def)
qed

text \<open>
  C2: the login handshake with a response code other than 0.  A new session connects;
  the sender task sends the login request, the receiver task reads the response with
  code 3, the caller polls it.  The check is falsy and \<open>connect\<close> logs \<open>LOGIN FAILED.\<close>, but
  it then logs \<open>LOGIN SUCCESS.\<close> all the same and returns normally; the log apart, it
  leaves the very session a response with code 0 leaves, so nothing marks the attempt
  as failed, and a subscription made afterwards is sent behind the login request.
\<close>

theorem connect_failed_login_not_marked:
  "(let prefs = JDict [(''streamerInfo'', JList [JDict
            [(''schwabClientCustomerId'', JStr ''cust''),
             (''schwabClientChannel'', JStr ''N9''),
             (''schwabClientCorrelId'', JStr ''corr''),
             (''schwabClientFunctionId'', JStr ''APIAPP''),
             (''streamerSocketUrl'', JStr ''wss://streamer'')]])];
        access = JDict [(''access_token'', JStr ''abc'')];
        response = (\<lambda>code. JDict [(''response'',
            JList [JDict [(''content'', JDict [(''code'', JInt code)])]])]);
        turns = (\<lambda>code. [SenderTurn SendOk, ReceiverTurn (RecvMsg (JsonText (response code))),
                          CallerTurn]);
        sub = JDict [(''service'', JStr ''LEVELONE_EQUITIES''), (''command'', JStr ''SUBS''),
                     (''parameters'', JDict [(''keys'', JStr ''SPY''), (''fields'', JStr ''0,1'')])];
        is_subscription = (\<lambda>m. case m of
                              JsonText v \<Rightarrow>
                                (case getitem_key v ''requests'' of Inr r \<Rightarrow> True | Inl e \<Rightarrow> False)
                            | Undecodable e \<Rightarrow> False)
    in case connect False None (turns 3) (StreamClient_init access prefs) of
         Some (None, running, failed) \<Rightarrow>
           logged failed = [''LOGIN FAILED.'', ''LOGIN SUCCESS.'']
           \<and> (case connect False None (turns 0) (StreamClient_init access prefs) of
                Some (None, running0, ready) \<Rightarrow>
                  logged ready = [''LOGIN SUCCESS.'']
                  \<and> failed\<lparr>logged := []\<rparr> = ready\<lparr>logged := []\<rparr>
              | _ \<Rightarrow> False)
           \<and> (case subscribe_service sub failed of
                (None, after) \<Rightarrow>
                  map is_subscription
                    (wire_out (snd (step (SenderIteration SendOk) (running, after))))
                    = [False, True]
              | _ \<Rightarrow> False)
       | _ \<Rightarrow> False)"
  using connect_returns
      [of False "StreamClient_init JNull JNull" JNull "StreamClient_init JNull JNull"
        JNull JNull "[]"]
    login_status_truthy [of JNull]
  by (simp add: connect_def init_login_params_def read_streamer_info_def login_params_def
      request_format_def produce_def is_login_success_def consume_def recv_msg_iter_def
      send_msg_iter_def finally_task_done_def login_status_def login_status_code_def
      log_msg_def subscribe_service_def subscribe_request_def StreamClient_init_def
      json_dumps_def Let_def)

section \<open>Properties of the token lifecycle\<close>

text \<open>The defining equations used to evaluate the examples.\<close>

lemmas example_defs = example_token_def example_is_expired_def example_env_def
  example_session_def

lemmas auth_defs = load_phase_def load_def validity_phase_def after_validity_def
  refresh_finish_def save_def manual_begin_def manual_finish_def auth_log_def
  is_refresh_token_expired_def datetime_add_def timedelta_days_def DATETIME_MIN_def
  DATETIME_MAX_def json_dumps_def Let_def

text \<open>
  A caller that is resumed alone until it ends does what \<open>check_authentication\<close> does.
\<close>

lemma after_validity_alone:
  "validity env s = (r, s') \<Longrightarrow>
   (case after_validity (validity_phase env s) of
      (Finished r1, s1) \<Rightarrow> (r1, s1) = (r, s')
    | (t1, s1) \<Rightarrow> resume env t1 s1 = (Finished r, s'))"
proof -
  assume v: "validity env s = (r, s')"
  obtain vo s1 where p: "validity_phase env s = (vo, s1)" by (cases "validity_phase env s")
  show ?thesis
    using v unfolding validity_def after_validity_def p
    by (cases vo) (simp_all split: prod.splits)
qed

lemma resume_alone:
  "check_authentication env s = (r, s') \<Longrightarrow>
   (case resume env NotStarted s of
      (Finished r1, s1) \<Rightarrow> (r1, s1) = (r, s')
    | (t1, s1) \<Rightarrow>
        (case resume env t1 s1 of
           (Finished r2, s2) \<Rightarrow> (r2, s2) = (r, s')
         | (t2, s2) \<Rightarrow> resume env t2 s2 = (Finished r, s')))"
proof -
  assume c: "check_authentication env s = (r, s')"
  obtain lo s1 where l: "load_phase env s = (lo, s1)" by (cases "load_phase env s")
  show ?thesis
  proof (cases lo)
    case LoadDone
    then have v: "validity env s1 = (r, s')"
      using c l by (simp add: check_authentication_def)
    obtain t1 s2 where a: "after_validity (validity_phase env s1) = (t1, s2)"
      by (cases "after_validity (validity_phase env s1)")
    show ?thesis
      using after_validity_alone[OF v] LoadDone l a
      by (cases t1) simp_all
  next
    case LoadManual
    obtain mr s2 where m: "manual_finish env (manual_begin s1) = (mr, s2)"
      by (cases "manual_finish env (manual_begin s1)")
    show ?thesis
    proof (cases mr)
      case (Some e)
      then show ?thesis using c l LoadManual m
        by (auto simp: check_authentication_def manual_authentication_def)
    next
      case None
      then have v: "validity env s2 = (r, s')"
        using c l LoadManual m
        by (simp add: check_authentication_def manual_authentication_def)
      obtain t1 s3 where a: "after_validity (validity_phase env s2) = (t1, s3)"
        by (cases "after_validity (validity_phase env s2)")
      show ?thesis
        using after_validity_alone[OF v] LoadManual l a m None
        by (cases t1) simp_all
    qed
  next
    case (LoadRaise e)
    then show ?thesis using c l by (simp add: check_authentication_def)
  qed
qed

lemma load_phase_not_found:
  assumes "oauth_token s = JNull \<or> token_is_expired env (oauth_token s) (clock_first env)"
    and "connect_db_ok env" and "redis_get_error env = None" and "store s = None"
  shows "load_phase env s = (LoadManual, s)"
  using assms by (simp add: load_phase_def load_def)

lemma load_phase_no_connection:
  assumes "oauth_token s = JNull \<or> token_is_expired env (oauth_token s) (clock_first env)"
    and "\<not> connect_db_ok env"
  shows "load_phase env s = (LoadRaise ValueError, s)"
  using assms by (simp add: load_phase_def load_def)

lemma load_phase_unreachable:
  assumes "oauth_token s = JNull \<or> token_is_expired env (oauth_token s) (clock_first env)"
    and "connect_db_ok env" and "redis_get_error env = Some ConnectionError"
  shows "load_phase env s = (LoadRaise ConnectionError, s)"
  using assms by (simp add: load_phase_def load_def)

lemma manual_finish_calls: "provider_calls (snd (manual_finish env s)) = provider_calls s"
  by (simp add: manual_finish_def Let_def split: sum.splits)

lemma refresh_finish_calls:
  "provider_calls (snd (refresh_finish env rt s)) = provider_calls s"
  by (simp add: refresh_finish_def auth_log_def Let_def split: sum.splits)

lemma validity_phase_calls:
  "set (provider_calls s) \<subseteq> set (provider_calls (snd (validity_phase env s)))"
  by (auto simp: validity_phase_def manual_begin_def auth_log_def Let_def
      split: sum.splits bool.splits)

lemma validity_calls:
  "set (provider_calls s) \<subseteq> set (provider_calls (snd (validity env s)))"
proof -
  obtain vo s1 where p: "validity_phase env s = (vo, s1)" by (cases "validity_phase env s")
  have "set (provider_calls s) \<subseteq> set (provider_calls s1)"
    using validity_phase_calls[of s env] p by simp
  moreover have "provider_calls (snd (validity env s)) = provider_calls s1"
    unfolding validity_def p
    by (cases vo) (simp_all add: manual_finish_calls refresh_finish_calls)
  ultimately show ?thesis by simp
qed

text \<open>
  C8: \<open>load\<close> signals a record missing from the store by \<open>TypeError\<close> and a store it
  cannot use by another exception (\<open>ValueError\<close> without a connection, the store's own
  \<open>ConnectionError\<close> when the request fails).  When \<open>check_authentication\<close> has to load,
  it answers the first by the manual authorization, which asks the provider for a
  token, and the others by raising, with the session untouched.
\<close>

theorem load_not_found_distinct:
  "(connect_db_ok env \<and> redis_get_error env = None \<longrightarrow> load env None tm = Inl TypeError)
   \<and> (\<not> connect_db_ok env \<longrightarrow> load env stored tm = Inl ValueError)
   \<and> (connect_db_ok env \<and> redis_get_error env = Some ConnectionError \<longrightarrow>
        load env stored tm = Inl ConnectionError)
   \<and> TypeError \<noteq> ValueError \<and> TypeError \<noteq> ConnectionError
   \<and> (oauth_token s = JNull \<or> token_is_expired env (oauth_token s) (clock_first env) \<longrightarrow>
        (connect_db_ok env \<and> redis_get_error env = None \<and> store s = None \<longrightarrow>
           check_authentication env s =
             (case manual_authentication env s of
                (Some e, s2) \<Rightarrow> (Some e, s2)
              | (None, s2) \<Rightarrow> validity env s2)
           \<and> FetchTokenCall \<in> set (provider_calls (snd (check_authentication env s))))
        \<and> (\<not> connect_db_ok env \<longrightarrow> check_authentication env s = (Some ValueError, s))
        \<and> (connect_db_ok env \<and> redis_get_error env = Some ConnectionError \<longrightarrow>
             check_authentication env s = (Some ConnectionError, s)))"
proof -
  have a: "connect_db_ok env \<and> redis_get_error env = None \<longrightarrow> load env None tm = Inl TypeError"
    by (simp add: load_def)
  have b: "\<not> connect_db_ok env \<longrightarrow> load env stored tm = Inl ValueError"
    by (simp add: load_def)
  have c: "connect_db_ok env \<and> redis_get_error env = Some ConnectionError \<longrightarrow>
        load env stored tm = Inl ConnectionError"
    by (simp add: load_def)
  have d: "check_authentication env s =
             (case manual_authentication env s of
                (Some e, s2) \<Rightarrow> (Some e, s2)
              | (None, s2) \<Rightarrow> validity env s2)
           \<and> FetchTokenCall \<in> set (provider_calls (snd (check_authentication env s)))"
    if n: "oauth_token s = JNull \<or> token_is_expired env (oauth_token s) (clock_first env)"
      and k: "connect_db_ok env \<and> redis_get_error env = None \<and> store s = None"
  proof -
    have l: "load_phase env s = (LoadManual, s)"
      using load_phase_not_found[OF n] k by simp
    then have eq: "check_authentication env s =
             (case manual_authentication env s of
                (Some e, s2) \<Rightarrow> (Some e, s2)
              | (None, s2) \<Rightarrow> validity env s2)"
      by (simp add: check_authentication_def)
    obtain mr s2 where m: "manual_authentication env s = (mr, s2)"
      by (cases "manual_authentication env s")
    have "provider_calls s2 = provider_calls (manual_begin s)"
      using m manual_finish_calls[of env "manual_begin s"]
      by (simp add: manual_authentication_def)
    then have f: "FetchTokenCall \<in> set (provider_calls s2)"
      by (simp add: manual_begin_def)
    have "FetchTokenCall \<in> set (provider_calls (snd (check_authentication env s)))"
      unfolding eq m using f validity_calls[of s2 env] by (cases mr) auto
    with eq show ?thesis by simp
  qed
  have e: "check_authentication env s = (Some ValueError, s)"
    if "oauth_token s = JNull \<or> token_is_expired env (oauth_token s) (clock_first env)"
      and "\<not> connect_db_ok env"
    using load_phase_no_connection[OF that] by (simp add: check_authentication_def)
  have f: "check_authentication env s = (Some ConnectionError, s)"
    if n: "oauth_token s = JNull \<or> token_is_expired env (oauth_token s) (clock_first env)"
      and k: "connect_db_ok env \<and> redis_get_error env = Some ConnectionError"
    using load_phase_unreachable[OF n] k by (simp add: check_authentication_def)
  show ?thesis using a b c d e f by blast
qed

theorem load_not_found_distinct_witness:
  "(let env = example_env (example_token ''a1'' 2000);
        s = example_session\<lparr>oauth_token := JNull, store := None\<rparr>
    in FetchTokenCall \<in> set (provider_calls (snd (check_authentication env s)))
       \<and> load env None (token_metadata s) = Inl TypeError
       \<and> check_authentication (env\<lparr>connect_db_ok := False\<rparr>) s = (Some ValueError, s)
       \<and> check_authentication (env\<lparr>redis_get_error := Some ConnectionError\<rparr>) s
            = (Some ConnectionError, s))"
proof -
  define env where "env = example_env (example_token ''a1'' 2000)"
  define s where "s = example_session\<lparr>oauth_token := JNull, store := None\<rparr>"
  have n: "oauth_token s = JNull" and st: "store s = None"
    by (simp_all add: s_def example_session_def)
  have e: "connect_db_ok env" "redis_get_error env = None"
    by (simp_all add: env_def example_env_def)
  have 1: "FetchTokenCall \<in> set (provider_calls (snd (check_authentication env s)))"
    and 2: "load env None (token_metadata s) = Inl TypeError"
    using load_not_found_distinct[of env "token_metadata s" None s] n st e by blast+
  have 3: "check_authentication (env\<lparr>connect_db_ok := False\<rparr>) s = (Some ValueError, s)"
    using load_not_found_distinct[of "env\<lparr>connect_db_ok := False\<rparr>" "token_metadata s" None s] n
    by simp
  have 4: "check_authentication (env\<lparr>redis_get_error := Some ConnectionError\<rparr>) s
            = (Some ConnectionError, s)"
    using load_not_found_distinct
      [of "env\<lparr>redis_get_error := Some ConnectionError\<rparr>" "token_metadata s" None s] n e
    by simp
  show ?thesis
    using 1 2 3 4 unfolding env_def s_def Let_def by simp
qed

text \<open>
  C9: the refresh never changes \<open>created_timestamp\<close>, whatever its outcome; a successful
  refresh replaces the token of the session and of the metadata and saves the record
  with the creation time it had, and all of lines 201 to 222 on the refresh path change
  nothing else but the record of the call made.
\<close>

theorem refresh_keeps_created_timestamp:
  "created_timestamp (token_metadata (snd (refresh_finish env rt s)))
     = created_timestamp (token_metadata s)
   \<and> (refresh_token_response env rt = Inr new \<and> connect_db_ok env \<and> redis_set_error env = None
        \<longrightarrow> refresh_finish env rt s =
          (None, s\<lparr>oauth_token := new,
                   token_metadata := (token_metadata s)\<lparr>token := new\<rparr>,
                   store := Some (json_dumps (JDict
                     [(''created_timestamp'',
                       json_of_timestamp env (created_timestamp (token_metadata s))),
                      (''token'', new)]))\<rparr>))
   \<and> (token (token_metadata s) \<noteq> JNull
        \<and> token_is_expired env (token (token_metadata s)) (clock_second env)
        \<and> is_refresh_token_expired (clock_refresh env) (created_timestamp (token_metadata s))
            = Inr False
        \<and> getitem_key (token (token_metadata s)) ''refresh_token'' = Inr rt
        \<and> refresh_token_response env rt = Inr new
        \<and> connect_db_ok env \<and> redis_set_error env = None
        \<longrightarrow> validity env s =
          (None, s\<lparr>oauth_token := new,
                   token_metadata := (token_metadata s)\<lparr>token := new\<rparr>,
                   store := Some (json_dumps (JDict
                     [(''created_timestamp'',
                       json_of_timestamp env (created_timestamp (token_metadata s))),
                      (''token'', new)])),
                   provider_calls := provider_calls s @ [RefreshCall rt]\<rparr>))"
proof (intro conjI impI)
  show "created_timestamp (token_metadata (snd (refresh_finish env rt s)))
     = created_timestamp (token_metadata s)"
    by (simp add: refresh_finish_def auth_log_def Let_def split: sum.splits)
next
  assume "refresh_token_response env rt = Inr new \<and> connect_db_ok env
      \<and> redis_set_error env = None"
  then show "refresh_finish env rt s =
          (None, s\<lparr>oauth_token := new,
                   token_metadata := (token_metadata s)\<lparr>token := new\<rparr>,
                   store := Some (json_dumps (JDict
                     [(''created_timestamp'',
                       json_of_timestamp env (created_timestamp (token_metadata s))),
                      (''token'', new)]))\<rparr>)"
    by (simp add: refresh_finish_def save_def Let_def)
next
  assume a: "token (token_metadata s) \<noteq> JNull
        \<and> token_is_expired env (token (token_metadata s)) (clock_second env)
        \<and> is_refresh_token_expired (clock_refresh env) (created_timestamp (token_metadata s))
            = Inr False
        \<and> getitem_key (token (token_metadata s)) ''refresh_token'' = Inr rt
        \<and> refresh_token_response env rt = Inr new
        \<and> connect_db_ok env \<and> redis_set_error env = None"
  then have "validity_phase env s =
      (AwaitRefresh rt, s\<lparr>oauth_token := token (token_metadata s),
         provider_calls := provider_calls s @ [RefreshCall rt]\<rparr>)"
    by (simp add: validity_phase_def Let_def)
  then show "validity env s =
          (None, s\<lparr>oauth_token := new,
                   token_metadata := (token_metadata s)\<lparr>token := new\<rparr>,
                   store := Some (json_dumps (JDict
                     [(''created_timestamp'',
                       json_of_timestamp env (created_timestamp (token_metadata s))),
                      (''token'', new)])),
                   provider_calls := provider_calls s @ [RefreshCall rt]\<rparr>)"
    using a by (simp add: validity_def refresh_finish_def save_def Let_def)
qed

theorem refresh_keeps_created_timestamp_witness:
  "(let env = example_env (example_token ''a1'' 2000);
        after = snd (validity env example_session)
    in created_timestamp (token_metadata after) = 0
       \<and> token (token_metadata after) = example_token ''a1'' 2000
       \<and> oauth_token after = example_token ''a1'' 2000
       \<and> store after = Some (JsonText (JDict [(''created_timestamp'', JInt 0),
                                              (''token'', example_token ''a1'' 2000)])))"
proof -
  define env where "env = example_env (example_token ''a1'' 2000)"
  have h: "token (token_metadata example_session) \<noteq> JNull
        \<and> token_is_expired env (token (token_metadata example_session)) (clock_second env)
        \<and> is_refresh_token_expired (clock_refresh env)
            (created_timestamp (token_metadata example_session)) = Inr False
        \<and> getitem_key (token (token_metadata example_session)) ''refresh_token''
            = Inr (JStr ''r0'')
        \<and> refresh_token_response env (JStr ''r0'') = Inr (example_token ''a1'' 2000)
        \<and> connect_db_ok env \<and> redis_set_error env = None"
    by (simp add: env_def example_defs is_refresh_token_expired_def datetime_add_def
        timedelta_days_def DATETIME_MIN_def DATETIME_MAX_def)
  have "validity env example_session =
          (None, example_session\<lparr>oauth_token := example_token ''a1'' 2000,
             token_metadata := (token_metadata example_session)
                \<lparr>token := example_token ''a1'' 2000\<rparr>,
             store := Some (json_dumps (JDict
               [(''created_timestamp'',
                 json_of_timestamp env (created_timestamp (token_metadata example_session))),
                (''token'', example_token ''a1'' 2000)])),
             provider_calls := provider_calls example_session @ [RefreshCall (JStr ''r0'')]\<rparr>)"
    using refresh_keeps_created_timestamp
      [of env "JStr ''r0''" example_session "example_token ''a1'' 2000"] h
    by blast
  then show ?thesis
    unfolding Let_def env_def[symmetric]
    by (simp add: env_def example_env_def example_session_def json_dumps_def)
qed

text \<open>
  C7: single-flight refresh.  The code has no lock around \<open>check_authentication\<close> (its own
  comment says the operation should be blocking): two callers that find the access token
  expired are both suspended in a refresh of their own, so the provider gets two refresh
  calls, and the first caller returns with a token other than the one the second
  returns with.  A caller resumed alone, for comparison, does what \<open>check_authentication\<close>
  does and makes one call.
\<close>

theorem check_authentication_two_refreshes:
  "(let first = example_env (example_token ''a1'' 2000);
        second = example_env (example_token ''a2'' 2000);
        callers = ([NotStarted, NotStarted], example_session);
        suspended = run_tasks [(0, first), (1, second)] callers;
        one_back = run_tasks [(0, first)] suspended;
        both_back = run_tasks [(1, second)] one_back;
        alone = run_tasks [(0, first), (0, first)] ([NotStarted], example_session)
    in fst suspended = [InRefresh (JStr ''r0''), InRefresh (JStr ''r0'')]
       \<and> fst both_back = [Finished None, Finished None]
       \<and> provider_calls (snd both_back) = [RefreshCall (JStr ''r0''), RefreshCall (JStr ''r0'')]
       \<and> oauth_token (snd one_back) = example_token ''a1'' 2000
       \<and> oauth_token (snd both_back) = example_token ''a2'' 2000
       \<and> alone = ([Finished (fst (check_authentication first example_session))],
                   snd (check_authentication first example_session))
       \<and> provider_calls (snd alone) = [RefreshCall (JStr ''r0'')])"
proof -
  define first where "first = example_env (example_token ''a1'' 2000)"
  have r1: "resume first NotStarted example_session =
      (InRefresh (JStr ''r0''),
       example_session\<lparr>provider_calls := [RefreshCall (JStr ''r0'')]\<rparr>)"
    by (simp add: first_def example_defs auth_defs)
  have "resume first (InRefresh (JStr ''r0''))
          (example_session\<lparr>provider_calls := [RefreshCall (JStr ''r0'')]\<rparr>) =
        (Finished (fst (check_authentication first example_session)),
         snd (check_authentication first example_session))"
    using resume_alone[OF prod.collapse[symmetric], of first example_session] r1
    by (cases "refresh_finish first (JStr ''r0'')
          (example_session\<lparr>provider_calls := [RefreshCall (JStr ''r0'')]\<rparr>)")
      (auto simp: case_prod_beta)
  then have alone: "run_tasks [(0, first), (0, first)] ([NotStarted], example_session) =
      ([Finished (fst (check_authentication first example_session))],
       snd (check_authentication first example_session))"
    using r1 by simp
  have calls: "provider_calls (snd (check_authentication first example_session))
      = [RefreshCall (JStr ''r0'')]"
    by (simp add: check_authentication_def validity_def first_def example_defs auth_defs)
  have rest: "(let second = example_env (example_token ''a2'' 2000);
        callers = ([NotStarted, NotStarted], example_session);
        suspended = run_tasks [(0, first), (1, second)] callers;
        one_back = run_tasks [(0, first)] suspended;
        both_back = run_tasks [(1, second)] one_back
    in fst suspended = [InRefresh (JStr ''r0''), InRefresh (JStr ''r0'')]
       \<and> fst both_back = [Finished None, Finished None]
       \<and> provider_calls (snd both_back) = [RefreshCall (JStr ''r0''), RefreshCall (JStr ''r0'')]
       \<and> oauth_token (snd one_back) = example_token ''a1'' 2000
       \<and> oauth_token (snd both_back) = example_token ''a2'' 2000)"
    by (simp add: first_def example_defs auth_defs)
  show ?thesis
    using alone calls rest unfolding Let_def first_def by simp
qed

end
